theory Spec2Isabelle
  imports Main
begin

section \<open>Text and the fenced-block pattern\<close>

text \<open>
  The program is \<^verbatim>\<open>src/vibecite/cli.py\<close>. A Python \<^verbatim>\<open>str\<close> is modelled as a
  \<^typ>\<open>string\<close>, each \<^typ>\<open>char\<close> standing for the code point of the same number, so the
  model covers texts whose code points are below 256. On that range the characters for
  which \<^verbatim>\<open>str.isspace()\<close> holds (they are also the ones the pattern's \<^verbatim>\<open>\s\<close> accepts)
  are 9 to 13, 28 to 32, 133 and 160, and the only characters that equal a letter of
  \<^verbatim>\<open>bibtex\<close> when case is ignored are that letter and its ASCII capital. (Above 255
  Python knows seventeen more whitespace characters, and two more characters, 304 and
  305, that equal \<^verbatim>\<open>i\<close> when case is ignored; texts holding them are outside the model.)
\<close>

definition is_space :: "char \<Rightarrow> bool" where
  "is_space c \<longleftrightarrow> (of_char c :: nat) \<in> set [9, 10, 11, 12, 13, 28, 29, 30, 31, 32, 133, 160]"

definition upper :: "char \<Rightarrow> char" where
  "upper c = (let n = (of_char c :: nat) in if 97 \<le> n \<and> n \<le> 122 then char_of (n - 32) else c)"

text \<open>A literal piece of the pattern, matched at the head of the text: the rest of the
  text when it matches.\<close>

fun lit :: "string \<Rightarrow> string \<Rightarrow> string option" where
  "lit [] s = Some s"
| "lit (p # ps) [] = None"
| "lit (p # ps) (c # cs) = (if c = p then lit ps cs else None)"

text \<open>The same under \<^verbatim>\<open>re.IGNORECASE\<close>, for a literal written in small letters.\<close>

fun lit_ignorecase :: "string \<Rightarrow> string \<Rightarrow> string option" where
  "lit_ignorecase [] s = Some s"
| "lit_ignorecase (p # ps) [] = None"
| "lit_ignorecase (p # ps) (c # cs) =
     (if c = p \<or> c = upper p then lit_ignorecase ps cs else None)"

text \<open>
  The pattern is \<^verbatim>\<open>```(?:bibtex)?\s*\n(.*?)\n```\<close> with \<^verbatim>\<open>re.DOTALL | re.IGNORECASE\<close>.
  Python's matcher backtracks, trying the alternatives of each piece in a fixed order;
  each function below is one piece followed by the rest of the pattern, and returns the
  group and the text after the match for the first alternative that lets the whole
  pattern match.

  \<^verbatim>\<open>(.*?)\n```\<close>: the group is lazy and, under DOTALL, takes any character, so the
  shortest group that is followed by a newline and a fence is taken.
\<close>

fun group_then_fence :: "string \<Rightarrow> (string \<times> string) option" where
  "group_then_fence [] = None"
| "group_then_fence (c # cs) =
     (case lit ''\<newline>```'' (c # cs) of
        Some rest \<Rightarrow> Some ([], rest)
      | None \<Rightarrow> map_option (\<lambda>(g, rest). (c # g, rest)) (group_then_fence cs))"

text \<open>\<^verbatim>\<open>\n(.*?)\n```\<close>\<close>

definition newline_then_group :: "string \<Rightarrow> (string \<times> string) option" where
  "newline_then_group s =
     (case lit ''\<newline>'' s of Some r \<Rightarrow> group_then_fence r | None \<Rightarrow> None)"

text \<open>\<^verbatim>\<open>\s*\n(.*?)\n```\<close>: the star is greedy, so one more whitespace character is taken
  first, and the rest of the pattern is tried here only when that fails.\<close>

fun spaces_then_group :: "string \<Rightarrow> (string \<times> string) option" where
  "spaces_then_group [] = newline_then_group []"
| "spaces_then_group (c # cs) =
     (if is_space c then
        (case spaces_then_group cs of
           Some m \<Rightarrow> Some m
         | None \<Rightarrow> newline_then_group (c # cs))
      else newline_then_group (c # cs))"

text \<open>\<^verbatim>\<open>(?:bibtex)?\s*\n(.*?)\n```\<close>: the option is greedy, so the tag is taken first.\<close>

definition tag_then_group :: "string \<Rightarrow> (string \<times> string) option" where
  "tag_then_group s =
     (case lit_ignorecase ''bibtex'' s of
        Some r \<Rightarrow>
          (case spaces_then_group r of
             Some m \<Rightarrow> Some m
           | None \<Rightarrow> spaces_then_group s)
      | None \<Rightarrow> spaces_then_group s)"

text \<open>The whole pattern, matched at the head of the text.\<close>

definition match_here :: "string \<Rightarrow> (string \<times> string) option" where
  "match_here s = (case lit ''```'' s of Some r \<Rightarrow> tag_then_group r | None \<Rightarrow> None)"

lemma lit_length: "lit p s = Some r \<Longrightarrow> length s = length p + length r"
  by (induction p s rule: lit.induct) (auto split: if_splits)

lemma lit_ignorecase_length:
  "lit_ignorecase p s = Some r \<Longrightarrow> length s = length p + length r"
  by (induction p s rule: lit_ignorecase.induct) (auto split: if_splits)

lemma group_then_fence_length:
  "group_then_fence s = Some (g, r) \<Longrightarrow> length r < length s"
proof (induction s arbitrary: g)
  case Nil
  then show ?case by simp
next
  case (Cons c cs)
  show ?case
  proof (cases "lit ''\<newline>```'' (c # cs)")
    case None
    with Cons.prems obtain g' where "group_then_fence cs = Some (g', r)"
      by (auto split: prod.splits)
    from Cons.IH [OF this] show ?thesis by simp
  next
    case (Some rest)
    with Cons.prems have "rest = r" by simp
    with Some lit_length [of "''\<newline>```''" "c # cs" r] show ?thesis by simp
  qed
qed

lemma newline_then_group_length:
  "newline_then_group s = Some (g, r) \<Longrightarrow> length r < length s"
  unfolding newline_then_group_def
  by (auto split: option.splits dest!: lit_length group_then_fence_length)

lemma spaces_then_group_length:
  "spaces_then_group s = Some (g, r) \<Longrightarrow> length r < length s"
proof (induction s)
  case Nil
  then show ?case by (auto dest: newline_then_group_length)
next
  case (Cons c cs)
  then show ?case
    by (auto split: if_splits option.splits dest: newline_then_group_length)
qed

lemma tag_then_group_length:
  "tag_then_group s = Some (g, r) \<Longrightarrow> length r < length s"
  unfolding tag_then_group_def
  by (auto split: option.splits dest!: lit_ignorecase_length spaces_then_group_length)

lemma match_here_length:
  "match_here s = Some (g, r) \<Longrightarrow> length r < length s"
  unfolding match_here_def
  by (auto split: option.splits dest!: lit_length tag_then_group_length)

text \<open>
  \<^verbatim>\<open>re.findall\<close>: the text is scanned from the left; where the pattern matches, its
  group is collected and the scan goes on after the match (a match is never empty here);
  elsewhere the scan moves on by one character.
\<close>

function findall :: "string \<Rightarrow> string list" where
  "findall s =
     (case match_here s of
        Some (g, rest) \<Rightarrow> g # findall rest
      | None \<Rightarrow> (case s of [] \<Rightarrow> [] | c # cs \<Rightarrow> findall cs))"
  by pat_completeness auto
termination
  by (relation "measure length") (auto dest: match_here_length)

declare findall.simps [simp del]

text \<open>\<^verbatim>\<open>str.strip()\<close> with no argument.\<close>

definition strip :: "string \<Rightarrow> string" where
  "strip s = rev (dropWhile is_space (rev (dropWhile is_space s)))"

text \<open>
  \<^verbatim>\<open>extract_bibtex_from_response\<close>: every match is stripped and kept when it is not
  empty and holds an \<^verbatim>\<open>@\<close>.
\<close>

definition extract_bibtex_from_response :: "string \<Rightarrow> string list" where
  "extract_bibtex_from_response response =
     (let matches = findall response
      in filter (\<lambda>cleaned. cleaned \<noteq> [] \<and> CHR ''@'' \<in> set cleaned) (map strip matches))"

section \<open>Console output, exceptions and the external process\<close>

text \<open>
  What the program prints is kept as a list of events, one constructor for each
  \<^verbatim>\<open>console.print\<close> or progress call of the source, carrying the values the source
  puts into the message.
\<close>

datatype exn =
    JSONDecodeError
  | KeyError string
  | AttributeError
  | TypeError
  | Raised string  \<comment> \<open>any other exception, by name\<close>

datatype printed =
    ErrorReadingSettings exn       \<comment> \<open>\<^verbatim>\<open>Error reading Claude settings: {e}\<close>\<close>
  | ToolsEnabled                   \<comment> \<open>\<^verbatim>\<open>WebSearch and WebFetch tools are enabled!\<close>\<close>
  | FailedToConfigure              \<comment> \<open>\<^verbatim>\<open>Failed to configure search tools in Claude settings.\<close>\<close>
  | DiscoveryLimited               \<comment> \<open>\<^verbatim>\<open>Paper discovery may be limited without search tools.\<close>\<close>
  | ProgressCalling                \<comment> \<open>task \<^verbatim>\<open>Calling Claude Code...\<close>\<close>
  | ProgressCompleted              \<comment> \<open>\<^verbatim>\<open>Claude Code completed successfully\<close>\<close>
  | ProgressError int              \<comment> \<open>\<^verbatim>\<open>Error: {e}\<close>\<close>
  | ErrorCalling int               \<comment> \<open>\<^verbatim>\<open>Error calling Claude Code: {e}\<close>\<close>
  | ErrorOutput string             \<comment> \<open>\<^verbatim>\<open>Error output: {e.stderr}\<close>\<close>
  | ProgressNotFound               \<comment> \<open>\<^verbatim>\<open>Claude Code CLI not found\<close>\<close>
  | CliNotFound                    \<comment> \<open>\<^verbatim>\<open>Claude Code CLI not found. Please install it first.\<close>\<close>
  | CreatedBib string              \<comment> \<open>\<^verbatim>\<open>Created new bibliography file: {bib}\<close>\<close>
  | CreatedRefsBib                 \<comment> \<open>\<^verbatim>\<open>Created refs.bib\<close>\<close>
  | ProjectInitialized string      \<comment> \<open>\<^verbatim>\<open>Project initialized with bibliography: ...\<close>\<close>
  | ProvideDescription             \<comment> \<open>\<^verbatim>\<open>Please provide a description after --\<close>\<close>
  | UsageAdd                       \<comment> \<open>\<^verbatim>\<open>Usage: vc add -- "your paper description here"\<close>\<close>
  | AddedVibe string               \<comment> \<open>\<^verbatim>\<open>Added vibe: {description}\<close>\<close>
  | NoVibesYet                     \<comment> \<open>\<^verbatim>\<open>No vibes added yet. Use 'vc add -- "description"' first.\<close>\<close>
  | SearchingFor string            \<comment> \<open>\<^verbatim>\<open>Searching for: {vibe['description']}\<close>\<close>
  | SearchCompleted nat            \<comment> \<open>\<^verbatim>\<open>Search completed! Found {n} BibTeX entries.\<close>\<close>
  | NoBlocksFound                  \<comment> \<open>\<^verbatim>\<open>Search completed but no BibTeX code blocks found. Using raw response.\<close>\<close>
  | SearchFailed                   \<comment> \<open>\<^verbatim>\<open>Search failed\<close>\<close>
  | NoResultsToExport              \<comment> \<open>\<^verbatim>\<open>No search results to export. Run 'vc search' first.\<close>\<close>
  | ExportedTo string              \<comment> \<open>\<^verbatim>\<open>Exported to {output_file}\<close>\<close>
  | NoVibesRecorded                \<comment> \<open>\<^verbatim>\<open>No vibes recorded\<close>\<close>
  | VibeHeader nat string          \<comment> \<open>\<^verbatim>\<open>Vibe {i+1}: {description}\<close>\<close>
  | HasParsedResults               \<comment> \<open>\<^verbatim>\<open>Has parsed results\<close>\<close>
  | RawResponseHeader              \<comment> \<open>\<^verbatim>\<open>Raw Claude Response:\<close>\<close>
  | Preview string bool            \<comment> \<open>a cut text, and whether \<^verbatim>\<open>...\<close> follows\<close>
  | ParsedHeader                   \<comment> \<open>\<^verbatim>\<open>Parsed BibTeX:\<close>\<close>
  | Entry string                   \<comment> \<open>an entry, printed as it is\<close>
  | NoEntriesFound                 \<comment> \<open>\<^verbatim>\<open>No BibTeX entries found in response\<close>\<close>
  | NoResultsYet                   \<comment> \<open>\<^verbatim>\<open>No results yet\<close>\<close>
  | SessionCleared                 \<comment> \<open>\<^verbatim>\<open>Session cleared\<close>\<close>

text \<open>
  \<^verbatim>\<open>subprocess.run(..., check=True)\<close> either completes, with a return code, the
  standard output and the standard error, or raises: \<^verbatim>\<open>FileNotFoundError\<close> when the
  executable is missing, or another exception (\<^verbatim>\<open>PermissionError\<close> for a file that may
  not be executed, \<^verbatim>\<open>UnicodeDecodeError\<close> for output that is not text, ...). With
  \<^verbatim>\<open>check=True\<close> a return code other than 0 becomes \<^verbatim>\<open>CalledProcessError\<close>.
  The world outside is a state of any type \<open>'w\<close> and a function that runs a command
  line on an input in it.
\<close>

datatype proc_outcome =
    Completed int string string
  | FileNotFound
  | OtherFailure string

type_synonym 'w runner = "'w \<Rightarrow> string list \<Rightarrow> string \<Rightarrow> proc_outcome \<times> 'w"

definition enhanced_prompt :: "string \<Rightarrow> string" where
  "enhanced_prompt prompt =
     ''You have access to search tools including WebSearch and WebFetch. Use these tools to search for academic papers.''
     @ ''\<newline>\<newline>'' @ prompt @ ''\<newline>\<newline>''
     @ ''Please use your available search tools to find relevant academic papers and format them as BibTeX entries. Be thorough in your search and provide high-quality citations.''"

text \<open>\<^verbatim>\<open>call_claude_code\<close>: the value returned or the exception that leaves the function,
  what was printed, and the world afterwards.\<close>

definition call_claude_code ::
  "'w runner \<Rightarrow> 'w \<Rightarrow> string \<Rightarrow> (exn + string) \<times> printed list \<times> 'w" where
  "call_claude_code run w prompt =
     (case run w [''claude'', ''--''] (enhanced_prompt prompt) of
        (Completed returncode stdout stderr, w') \<Rightarrow>
          if returncode = 0 then (Inr stdout, [ProgressCalling, ProgressCompleted], w')
          else (Inr [],
                [ProgressCalling, ProgressError returncode, ErrorCalling returncode,
                 ErrorOutput stderr], w')
      | (FileNotFound, w') \<Rightarrow> (Inr [], [ProgressCalling, ProgressNotFound, CliNotFound], w')
      | (OtherFailure e, w') \<Rightarrow> (Inl (Raised e), [ProgressCalling], w'))"

section \<open>The permissions file\<close>

text \<open>
  A JSON value as \<^verbatim>\<open>json.loads\<close> returns it; an object is a Python \<^verbatim>\<open>dict\<close>, kept as
  the list of its items in insertion order. No arithmetic is done on numbers, which are
  kept as written.
\<close>

datatype json =
    JNull
  | JBool bool
  | JNum string
  | JStr string
  | JArr "json list"
  | JObj "(string \<times> json) list"

text \<open>\<^verbatim>\<open>obj.get(key, default)\<close>: only a \<^verbatim>\<open>dict\<close> has the method.\<close>

fun py_get :: "json \<Rightarrow> string \<Rightarrow> json \<Rightarrow> exn + json" where
  "py_get (JObj items) key dflt = Inr (case map_of items key of Some v \<Rightarrow> v | None \<Rightarrow> dflt)"
| "py_get _ key dflt = Inl AttributeError"

text \<open>\<^verbatim>\<open>name in obj\<close> for a string \<^verbatim>\<open>name\<close>: membership in a list, a key of a
  \<^verbatim>\<open>dict\<close>, a substring of a string; not defined on the other values.\<close>

definition is_substring :: "string \<Rightarrow> string \<Rightarrow> bool" where
  "is_substring name s \<longleftrightarrow> (\<exists>i \<in> set [0 ..< Suc (length s)]. take (length name) (drop i s) = name)"

fun py_in :: "string \<Rightarrow> json \<Rightarrow> exn + bool" where
  "py_in name (JArr xs) = Inr (JStr name \<in> set xs)"
| "py_in name (JObj items) = Inr (name \<in> set (map fst items))"
| "py_in name (JStr s) = Inr (is_substring name s)"
| "py_in name _ = Inl TypeError"

text \<open>\<^verbatim>\<open>obj.append(name)\<close>: only a list has the method.\<close>

fun py_append :: "json \<Rightarrow> string \<Rightarrow> exn + json" where
  "py_append (JArr xs) name = Inr (JArr (xs @ [JStr name]))"
| "py_append _ name = Inl AttributeError"

text \<open>\<^verbatim>\<open>d[key] = v\<close> on the items of a \<^verbatim>\<open>dict\<close>: a key that is there keeps its place.\<close>

fun dict_set :: "(string \<times> json) list \<Rightarrow> string \<Rightarrow> json \<Rightarrow> (string \<times> json) list" where
  "dict_set [] key v = [(key, v)]"
| "dict_set ((k, x) # items) key v =
     (if k = key then (k, v) # items else (k, x) # dict_set items key v)"

text \<open>\<^verbatim>\<open>settings["permissions"]["allow"] = allowed_tools\<close>, reached only when both
  \<^verbatim>\<open>get\<close> calls have returned: \<^verbatim>\<open>settings\<close> is a \<^verbatim>\<open>dict\<close>, and so is the value under
  \<^verbatim>\<open>permissions\<close> when the key is there.\<close>

fun set_allow :: "json \<Rightarrow> json \<Rightarrow> exn + json" where
  "set_allow (JObj items) allowed_tools =
     (case map_of items ''permissions'' of
        None \<Rightarrow> Inl (KeyError ''permissions'')
      | Some (JObj perms) \<Rightarrow>
          Inr (JObj (dict_set items ''permissions'' (JObj (dict_set perms ''allow'' allowed_tools))))
      | Some _ \<Rightarrow> Inl TypeError)"
| "set_allow _ allowed_tools = Inl TypeError"

text \<open>
  The files the program works on. The session file and the permissions file are read
  with \<^verbatim>\<open>json.loads\<close> and written with \<^verbatim>\<open>json.dumps\<close>, so each is kept as the value read
  from it; a permissions file may also hold text that is no JSON. The other files are
  texts under their paths; a path given to \<^verbatim>\<open>--bib\<close> is taken to name neither the
  session file nor the permissions file, and \<^verbatim>\<open>.claude\<close> not to be a regular file.
  \<open>write_log\<close> lists the paths written with \<^verbatim>\<open>write_text\<close>, the last one first.
\<close>

datatype json_file = NotJson | IsJson json

record vibe =
  description :: string
  results :: "string option"
  raw_results :: "string option"

record session =
  vibes :: "vibe list"
  current_bib :: "string option"

record files =
  state_file :: "session option"
  settings_file :: "json_file option"
  texts :: "string \<rightharpoonup> string"
  write_log :: "string list"

definition default_settings :: json where
  "default_settings =
     JObj [(''permissions'',
            JObj [(''allow'', JArr [JStr ''WebSearch'', JStr ''WebFetch'']),
                  (''deny'', JArr []),
                  (''ask'', JArr [])])]"

definition write_settings :: "json \<Rightarrow> files \<Rightarrow> files" where
  "write_settings settings fs =
     fs\<lparr>settings_file := Some (IsJson settings),
        write_log := ''.claude/settings.local.json'' # write_log fs\<rparr>"

text \<open>The part of \<^verbatim>\<open>check_web_search_settings\<close> after the file has been read: the
  missing tools are appended and the file is written, or nothing is done.\<close>

definition add_missing_tools ::
  "json \<Rightarrow> json \<Rightarrow> bool \<Rightarrow> bool \<Rightarrow> files \<Rightarrow> (exn + bool) \<times> files \<times> printed list" where
  "add_missing_tools settings allowed_tools has_websearch has_webfetch fs =
     (if \<not> has_websearch \<or> \<not> has_webfetch then
        (case (if \<not> has_websearch then py_append allowed_tools ''WebSearch''
               else Inr allowed_tools) of
           Inl e \<Rightarrow> (Inl e, fs, [])
         | Inr tools1 \<Rightarrow>
             (case (if \<not> has_webfetch then py_append tools1 ''WebFetch'' else Inr tools1) of
                Inl e \<Rightarrow> (Inl e, fs, [])
              | Inr tools2 \<Rightarrow>
                  (case set_allow settings tools2 of
                     Inl (KeyError k) \<Rightarrow> (Inr False, fs, [ErrorReadingSettings (KeyError k)])
                   | Inl e \<Rightarrow> (Inl e, fs, [])
                   | Inr settings' \<Rightarrow> (Inr True, write_settings settings' fs, []))))
      else (Inr True, fs, []))"

text \<open>\<^verbatim>\<open>check_web_search_settings\<close>: the value returned or the exception that is not
  caught, the files afterwards, and what was printed.\<close>

definition check_web_search_settings :: "files \<Rightarrow> (exn + bool) \<times> files \<times> printed list" where
  "check_web_search_settings fs =
     (case settings_file fs of
        None \<Rightarrow> (Inr True, write_settings default_settings fs, [])
      | Some NotJson \<Rightarrow> (Inr False, fs, [ErrorReadingSettings JSONDecodeError])
      | Some (IsJson settings) \<Rightarrow>
          (case py_get settings ''permissions'' (JObj []) of
             Inl e \<Rightarrow> (Inl e, fs, [])
           | Inr permissions \<Rightarrow>
               (case py_get permissions ''allow'' (JArr []) of
                  Inl e \<Rightarrow> (Inl e, fs, [])
                | Inr allowed_tools \<Rightarrow>
                    (case py_in ''WebSearch'' allowed_tools of
                       Inl e \<Rightarrow> (Inl e, fs, [])
                     | Inr has_websearch \<Rightarrow>
                         (case py_in ''WebFetch'' allowed_tools of
                            Inl e \<Rightarrow> (Inl e, fs, [])
                          | Inr has_webfetch \<Rightarrow>
                              add_missing_tools settings allowed_tools
                                has_websearch has_webfetch fs)))))"

text \<open>\<^verbatim>\<open>enable_web_search_with_consent\<close>\<close>

definition enable_web_search_with_consent ::
  "files \<Rightarrow> (exn + bool) \<times> files \<times> printed list" where
  "enable_web_search_with_consent fs =
     (case check_web_search_settings fs of
        (Inl e, fs', out) \<Rightarrow> (Inl e, fs', out)
      | (Inr ok, fs', out) \<Rightarrow>
          if ok then (Inr True, fs', out @ [ToolsEnabled])
          else (Inr False, fs', out @ [FailedToConfigure, DiscoveryLimited]))"

section \<open>The session and its commands\<close>

text \<open>\<^verbatim>\<open>load_state\<close> and \<^verbatim>\<open>save_state\<close>\<close>

definition load_state :: "files \<Rightarrow> session" where
  "load_state fs =
     (case state_file fs of
        Some state \<Rightarrow> state
      | None \<Rightarrow> \<lparr>vibes = [], current_bib = None\<rparr>)"

definition save_state :: "session \<Rightarrow> files \<Rightarrow> files" where
  "save_state state fs =
     fs\<lparr>state_file := Some state, write_log := ''.vc_state.json'' # write_log fs\<rparr>"

text \<open>The truth value Python gives to an optional string: \<^verbatim>\<open>None\<close> and the empty
  string are false.\<close>

fun truthy :: "string option \<Rightarrow> bool" where
  "truthy None = False"
| "truthy (Some s) = (s \<noteq> [])"

text \<open>\<^verbatim>\<open>x or d\<close> for an optional string \<^verbatim>\<open>x\<close> and a string \<^verbatim>\<open>d\<close>.\<close>

fun value_or :: "string option \<Rightarrow> string \<Rightarrow> string" where
  "value_or None d = d"
| "value_or (Some s) d = (if s \<noteq> [] then s else d)"

text \<open>\<^verbatim>\<open>sep.join(xs)\<close>\<close>

fun join :: "string \<Rightarrow> string list \<Rightarrow> string" where
  "join sep [] = []"
| "join sep [x] = x"
| "join sep (x # y # ys) = x @ sep @ join sep (y # ys)"


definition write_text :: "string \<Rightarrow> string \<Rightarrow> files \<Rightarrow> files" where
  "write_text p text fs = fs\<lparr>texts := (texts fs)(p \<mapsto> text), write_log := p # write_log fs\<rparr>"


text \<open>\<^verbatim>\<open>add\<close>, on the arguments after \<^verbatim>\<open>--\<close>.\<close>

definition add :: "string list \<Rightarrow> files \<Rightarrow> files \<times> printed list" where
  "add args fs =
     (if args = [] then (fs, [ProvideDescription, UsageAdd])
      else
        (let description = join '' '' args;
             state = load_state fs;
             vibe = \<lparr>description = description, results = None, raw_results = None\<rparr>
         in (save_state (state\<lparr>vibes := vibes state @ [vibe]\<rparr>) fs, [AddedVibe description])))"

definition search_prompt :: "string \<Rightarrow> string" where
  "search_prompt d =
     ''Please search for academic papers matching this description: ''
     @ [CHR 0x22] @ d @ [CHR 0x22] @ ''\<newline>\<newline>''
     @ ''Please find ONLY ONE most relevant paper and return it in BibTeX format. IMPORTANT: When choosing between multiple versions of the same paper, prioritize the conference/journal publication over the arXiv version. Include DOI when available. Format your response with the BibTeX entry inside ```bibtex ``` code blocks.''"

text \<open>The body of the loop of \<^verbatim>\<open>search\<close> after \<^verbatim>\<open>call_claude_code\<close> has returned
  \<open>response\<close>: the vibe afterwards and what was printed.\<close>

definition store_response :: "vibe \<Rightarrow> string \<Rightarrow> vibe \<times> printed list" where
  "store_response v response =
     (if response \<noteq> [] then
        (let v1 = v\<lparr>raw_results := Some response\<rparr>;
             bibtex_entries = extract_bibtex_from_response response
         in if bibtex_entries \<noteq> [] then
              (v1\<lparr>results := Some (join ''\<newline>\<newline>'' bibtex_entries)\<rparr>,
               [SearchCompleted (length bibtex_entries)])
            else (v1\<lparr>results := Some response\<rparr>, [NoBlocksFound]))
      else (v, [SearchFailed]))"

text \<open>
  One turn of the loop of \<^verbatim>\<open>search\<close>, on the vibe \<open>v\<close>: the vibe afterwards or the
  exception that left the loop, what was printed, the world afterwards, and the prompts
  that were handed to \<^verbatim>\<open>call_claude_code\<close> (none or one). A vibe whose results are
  true for Python is passed over.
\<close>

definition search_vibe ::
  "'w runner \<Rightarrow> 'w \<Rightarrow> vibe \<Rightarrow> (exn + vibe) \<times> printed list \<times> 'w \<times> string list" where
  "search_vibe run w v =
     (if truthy (results v) then (Inr v, [], w, [])
      else
        (case call_claude_code run w (search_prompt (description v)) of
           (Inl e, out1, w1) \<Rightarrow>
             (Inl e, SearchingFor (description v) # out1, w1, [search_prompt (description v)])
         | (Inr response, out1, w1) \<Rightarrow>
             (case store_response v response of
                (v', out2) \<Rightarrow>
                  (Inr v', SearchingFor (description v) # out1 @ out2, w1,
                   [search_prompt (description v)]))))"

text \<open>The loop over the vibes, in their order; an exception ends it.\<close>

fun search_vibes ::
  "'w runner \<Rightarrow> 'w \<Rightarrow> vibe list \<Rightarrow> (exn + vibe list) \<times> printed list \<times> 'w \<times> string list" where
  "search_vibes run w [] = (Inr [], [], w, [])"
| "search_vibes run w (v # vs) =
     (case search_vibe run w v of
        (Inl e, out1, w1, asked1) \<Rightarrow> (Inl e, out1, w1, asked1)
      | (Inr v', out1, w1, asked1) \<Rightarrow>
          (case search_vibes run w1 vs of
             (Inl e, out2, w2, asked2) \<Rightarrow> (Inl e, out1 @ out2, w2, asked1 @ asked2)
           | (Inr vs', out2, w2, asked2) \<Rightarrow>
               (Inr (v' # vs'), out1 @ out2, w2, asked1 @ asked2)))"

text \<open>\<^verbatim>\<open>search\<close>: the exception that ended the command, if any, the files afterwards,
  what was printed, the world afterwards and the prompts asked. The session is saved
  only when the loop has come to its end.\<close>

definition search ::
  "'w runner \<Rightarrow> files \<Rightarrow> 'w \<Rightarrow> exn option \<times> files \<times> printed list \<times> 'w \<times> string list" where
  "search run fs w =
     (let state = load_state fs
      in if vibes state = [] then (None, fs, [NoVibesYet], w, [])
         else
           (case enable_web_search_with_consent fs of
              (Inl e, fs1, out1) \<Rightarrow> (Some e, fs1, out1, w, [])
            | (Inr ok, fs1, out1) \<Rightarrow>
                (case search_vibes run w (vibes state) of
                   (Inl e, out2, w', asked) \<Rightarrow> (Some e, fs1, out1 @ out2, w', asked)
                 | (Inr vs', out2, w', asked) \<Rightarrow>
                     (None, save_state (state\<lparr>vibes := vs'\<rparr>) fs1, out1 @ out2, w', asked))))"

text \<open>\<^verbatim>\<open>export\<close>\<close>

definition all_results :: "vibe list \<Rightarrow> string list" where
  "all_results vs = map (\<lambda>v. value_or (results v) []) (filter (\<lambda>v. truthy (results v)) vs)"

definition export :: "(string \<Rightarrow> string) \<Rightarrow> string option \<Rightarrow> files \<Rightarrow> files \<times> printed list" where
  "export absolute bib fs =
     (let state = load_state fs;
          output_file = value_or bib (value_or (current_bib state) ''refs.bib'')
      in if all_results (vibes state) = [] then (fs, [NoResultsToExport])
         else
           (let combined_results = join ''\<newline>\<newline>'' (all_results (vibes state))
            in (write_text (absolute output_file) combined_results fs, [ExportedTo output_file])))"






section \<open>Concrete inputs\<close>

text \<open>A working directory with no file of the program in it, and the session after
  \<^verbatim>\<open>vc add -- "graph neural networks"\<close> and \<^verbatim>\<open>vc add -- "attention mechanisms"\<close>.\<close>

definition no_files :: files where
  "no_files = \<lparr>state_file = None, settings_file = None, texts = Map.empty, write_log = []\<rparr>"

definition two_vibes :: files where
  "two_vibes =
     fst (add [''attention mechanisms''] (fst (add [''graph neural networks''] no_files)))"




definition enabled :: files where
  "enabled = write_settings default_settings no_files"



section \<open>Notions used in the statements\<close>




text \<open>
  A tag of an opening fence: nothing, or \<^verbatim>\<open>bibtex\<close> in any mix of cases. A fenced
  block with the text before it is given by that text, the tag, the whitespace after the
  tag and the body: it reads as the text before it, the opening fence, the tag, the
  whitespace, a newline, the body, a newline and the closing fence.
\<close>

definition is_tag :: "string \<Rightarrow> bool" where
  "is_tag tag \<longleftrightarrow> tag = [] \<or> lit_ignorecase ''bibtex'' tag = Some []"

definition block_text :: "string \<times> string \<times> string \<times> string \<Rightarrow> string" where
  "block_text b =
     (case b of (pre, tag, ws, g) \<Rightarrow> pre @ ''```'' @ tag @ ws @ ''\<newline>'' @ g @ ''\<newline>```'')"

definition block_body :: "string \<times> string \<times> string \<times> string \<Rightarrow> string" where
  "block_body b = (case b of (pre, tag, ws, g) \<Rightarrow> g)"

definition is_block :: "string \<times> string \<times> string \<times> string \<Rightarrow> bool" where
  "is_block b = (case b of (pre, tag, ws, g) \<Rightarrow> is_tag tag \<and> list_all is_space ws)"

section \<open>Extraction\<close>

lemma lit_iff: "lit p s = Some r \<longleftrightarrow> s = p @ r"
  by (induction p s rule: lit.induct) auto

lemma lit_ignorecase_split:
  "lit_ignorecase p s = Some r \<Longrightarrow> \<exists>t. s = t @ r \<and> lit_ignorecase p t = Some []"
proof (induction p s rule: lit_ignorecase.induct)
  case (3 p ps c cs)
  then have "lit_ignorecase ps cs = Some r" and c: "c = p \<or> c = upper p"
    by (auto split: if_splits)
  with 3 obtain t where "cs = t @ r" "lit_ignorecase ps t = Some []" by auto
  with c have "c # cs = (c # t) @ r \<and> lit_ignorecase (p # ps) (c # t) = Some []" by auto
  then show ?case by blast
qed auto

lemma group_then_fence_shape:
  "group_then_fence s = Some (g, r) \<Longrightarrow> s = g @ ''\<newline>```'' @ r"
proof (induction s arbitrary: g)
  case (Cons c cs)
  show ?case
  proof (cases "lit ''\<newline>```'' (c # cs)")
    case None
    with Cons.prems obtain g' where g': "group_then_fence cs = Some (g', r)" "g = c # g'"
      by (auto split: prod.splits)
    from Cons.IH [OF g'(1)] g'(2) show ?thesis by simp
  next
    case (Some rest)
    with Cons.prems have "rest = r" "g = []" by simp_all
    with Some show ?thesis by (simp only: lit_iff) simp
  qed
qed simp

lemma newline_then_group_shape:
  "newline_then_group s = Some (g, r) \<Longrightarrow> s = ''\<newline>'' @ g @ ''\<newline>```'' @ r"
  unfolding newline_then_group_def
  by (auto split: option.splits simp: lit_iff dest: group_then_fence_shape)

lemma spaces_then_group_shape:
  "spaces_then_group s = Some (g, r) \<Longrightarrow>
     \<exists>ws. (\<forall>c \<in> set ws. is_space c) \<and> s = ws @ ''\<newline>'' @ g @ ''\<newline>```'' @ r"
proof (induction s)
  case Nil
  then show ?case by (auto dest: newline_then_group_shape)
next
  case (Cons c cs)
  show ?case
  proof (cases "is_space c \<and> spaces_then_group cs \<noteq> None")
    case True
    with Cons.prems have "spaces_then_group cs = Some (g, r)" by auto
    from Cons.IH [OF this] obtain ws where
      "\<forall>c \<in> set ws. is_space c" "cs = ws @ ''\<newline>'' @ g @ ''\<newline>```'' @ r" by blast
    with True have "(\<forall>x \<in> set (c # ws). is_space x) \<and> c # cs = (c # ws) @ ''\<newline>'' @ g @ ''\<newline>```'' @ r"
      by simp
    then show ?thesis by blast
  next
    case False
    with Cons.prems have "newline_then_group (c # cs) = Some (g, r)"
      by (auto split: if_splits option.splits)
    from newline_then_group_shape [OF this] have "(\<forall>x \<in> set []. is_space x) \<and> c # cs = [] @ ''\<newline>'' @ g @ ''\<newline>```'' @ r"
      by simp
    then show ?thesis by blast
  qed
qed

lemma tag_then_group_shape:
  assumes "tag_then_group s = Some (g, r)"
  shows "\<exists>tag ws. is_tag tag \<and> (\<forall>c \<in> set ws. is_space c)
           \<and> s = tag @ ws @ ''\<newline>'' @ g @ ''\<newline>```'' @ r"
proof (cases "lit_ignorecase ''bibtex'' s")
  case None
  with assms have "spaces_then_group s = Some (g, r)" by (simp add: tag_then_group_def)
  from spaces_then_group_shape [OF this] show ?thesis
    by (metis append_Nil is_tag_def)
next
  case (Some r1)
  show ?thesis
  proof (cases "spaces_then_group r1")
    case None
    with Some assms have "spaces_then_group s = Some (g, r)" by (simp add: tag_then_group_def)
    from spaces_then_group_shape [OF this] show ?thesis
      by (metis append_Nil is_tag_def)
  next
    case (Some m)
    with \<open>lit_ignorecase ''bibtex'' s = Some r1\<close> assms have "spaces_then_group r1 = Some (g, r)"
      by (simp add: tag_then_group_def)
    from spaces_then_group_shape [OF this] obtain ws where
      ws: "\<forall>c \<in> set ws. is_space c" "r1 = ws @ ''\<newline>'' @ g @ ''\<newline>```'' @ r" by blast
    from lit_ignorecase_split [OF \<open>lit_ignorecase ''bibtex'' s = Some r1\<close>] obtain t where
      "s = t @ r1" "lit_ignorecase ''bibtex'' t = Some []" by blast
    with ws have "is_tag t \<and> (\<forall>c \<in> set ws. is_space c) \<and> s = t @ ws @ ''\<newline>'' @ g @ ''\<newline>```'' @ r"
      by (simp add: is_tag_def)
    then show ?thesis by blast
  qed
qed

lemma match_here_shape:
  assumes "match_here s = Some (g, r)"
  shows "\<exists>tag ws. is_tag tag \<and> (\<forall>c \<in> set ws. is_space c)
           \<and> s = ''```'' @ tag @ ws @ ''\<newline>'' @ g @ ''\<newline>```'' @ r"
proof -
  from assms obtain r1 where "s = ''```'' @ r1" "tag_then_group r1 = Some (g, r)"
    by (auto simp: match_here_def lit_iff split: option.splits)
  with tag_then_group_shape [of r1 g r] show ?thesis by auto
qed

lemma findall_Nil: "findall [] = []"
  by (simp add: findall.simps match_here_def)

lemma findall_None: "match_here (c # cs) = None \<Longrightarrow> findall (c # cs) = findall cs"
  by (simp add: findall.simps [of "c # cs"])

lemma findall_Some: "match_here s = Some (g, rest) \<Longrightarrow> findall s = g # findall rest"
  by (simp add: findall.simps [of s])

lemma findall_blocks:
  "\<exists>bs tail. s = concat (map block_text bs) @ tail \<and> list_all is_block bs
     \<and> findall s = map block_body bs"
proof (induction s rule: findall.induct)
  case (1 s)
  show ?case
  proof (cases "match_here s")
    case None
    show ?thesis
    proof (cases s)
      case Nil
      then have "s = concat (map block_text []) @ [] \<and> list_all is_block []
          \<and> findall s = map block_body []"
        by (simp add: findall_Nil)
      then show ?thesis by blast
    next
      case (Cons c cs)
      from 1(1) [OF None Cons] obtain bs tail where
        ih: "cs = concat (map block_text bs) @ tail" "list_all is_block bs"
        "findall cs = map block_body bs"
        by blast
      from None Cons have f: "findall s = findall cs" by (simp add: findall_None)
      show ?thesis
      proof (cases bs)
        case Nil
        with ih f Cons have "s = concat (map block_text []) @ (c # tail) \<and> list_all is_block []
            \<and> findall s = map block_body []"
          by simp
        then show ?thesis by blast
      next
        case bs: (Cons b bs')
        obtain pre tag ws g where b: "b = (pre, tag, ws, g)" by (cases b)
        with ih f Cons bs have
          "s = concat (map block_text ((c # pre, tag, ws, g) # bs')) @ tail
           \<and> list_all is_block ((c # pre, tag, ws, g) # bs')
           \<and> findall s = map block_body ((c # pre, tag, ws, g) # bs')"
          by (simp add: block_text_def is_block_def block_body_def)
        then show ?thesis by blast
      qed
    qed
  next
    case (Some m)
    obtain g rest where m: "m = (g, rest)" by (cases m)
    from 1(2) [OF Some m [symmetric]] obtain bs tail where
      ih: "rest = concat (map block_text bs) @ tail" "list_all is_block bs"
      "findall rest = map block_body bs"
      by blast
    from match_here_shape Some m obtain tag ws where
      t: "is_tag tag" "\<forall>c \<in> set ws. is_space c"
      and s: "s = ''```'' @ tag @ ws @ ''\<newline>'' @ g @ ''\<newline>```'' @ rest"
      by blast
    from Some m have "findall s = g # findall rest" by (simp add: findall_Some)
    with ih t s have
      "s = concat (map block_text (([], tag, ws, g) # bs)) @ tail
       \<and> list_all is_block (([], tag, ws, g) # bs)
       \<and> findall s = map block_body (([], tag, ws, g) # bs)"
      by (simp add: block_text_def is_block_def block_body_def list_all_iff)
    then show ?thesis by blast
  qed
qed

lemma findall_member:
  assumes "g \<in> set (findall s)"
  shows "\<exists>pre tag ws rest. is_tag tag \<and> (\<forall>x \<in> set ws. is_space x)
           \<and> s = pre @ ''```'' @ tag @ ws @ ''\<newline>'' @ g @ ''\<newline>```'' @ rest"
proof -
  from findall_blocks [of s] obtain bs tail where
    s: "s = concat (map block_text bs) @ tail" and ok: "list_all is_block bs"
    and f: "findall s = map block_body bs"
    by blast
  from assms f obtain b where b: "b \<in> set bs" "g = block_body b" by auto
  then obtain bs1 bs2 where split: "bs = bs1 @ b # bs2" by (meson split_list)
  obtain pre tag ws g' where t: "b = (pre, tag, ws, g')" by (cases b)
  with b ok have "is_tag tag" "\<forall>x \<in> set ws. is_space x" "g' = g"
    by (auto simp: list_all_iff is_block_def block_body_def)
  moreover from s split t \<open>g' = g\<close> have
    "s = (concat (map block_text bs1) @ pre) @ ''```'' @ tag @ ws @ ''\<newline>'' @ g @ ''\<newline>```''
         @ (concat (map block_text bs2) @ tail)"
    by (simp add: block_text_def)
  ultimately show ?thesis by blast
qed




















text \<open>
  C2: on the text \<^verbatim>\<open>abc\<close>, newline, a fence tagged \<^verbatim>\<open>bibtex\<close>, newline,
  \<^verbatim>\<open>@article{x, title={T}}\<close>, newline, a fence, newline, \<^verbatim>\<open>def\<close>, the extractor
  returns exactly one entry, \<^verbatim>\<open>@article{x, title={T}}\<close>.
\<close>

theorem extract_example:
  "extract_bibtex_from_response
     ''abc\<newline>```bibtex\<newline>@article{x, title={T}}\<newline>```\<newline>def''
   = [''@article{x, title={T}}'']"
  by code_simp

lemma block_two_newlines:
  "2 \<le> length (filter (\<lambda>c. c = CHR ''\<newline>'')
                 (pre @ ''```'' @ tag @ ws @ ''\<newline>'' @ g @ ''\<newline>```'' @ rest))"
  by simp




text \<open>
  C10: every entry returned is the trimmed body of a block of the shape opening fence,
  optional tag \<^verbatim>\<open>bibtex\<close>, optional whitespace, newline, body, newline, closing fence,
  found in the text. So a text with fewer than two newlines yields no entry, whatever
  else it holds: a block written on one line, or one with no line between its fences.
  In particular the text \<^verbatim>\<open>```bibtex @x```\<close> and the text made of a fence, a newline
  and a fence yield none.
\<close>

theorem extract_block_shape:
  "(\<forall>e \<in> set (extract_bibtex_from_response t).
      \<exists>pre tag ws g rest. is_tag tag \<and> (\<forall>x \<in> set ws. is_space x)
        \<and> t = pre @ ''```'' @ tag @ ws @ ''\<newline>'' @ g @ ''\<newline>```'' @ rest \<and> e = strip g)
   \<and> (length (filter (\<lambda>c. c = CHR ''\<newline>'') t) < 2 \<longrightarrow> extract_bibtex_from_response t = [])
   \<and> extract_bibtex_from_response ''```bibtex @x```'' = []
   \<and> extract_bibtex_from_response ''```\<newline>```'' = []"
proof -
  have shape: "\<exists>pre tag ws g rest. is_tag tag \<and> (\<forall>x \<in> set ws. is_space x)
        \<and> t = pre @ ''```'' @ tag @ ws @ ''\<newline>'' @ g @ ''\<newline>```'' @ rest \<and> e = strip g"
    if "e \<in> set (extract_bibtex_from_response t)" for e
  proof -
    from that obtain g where g: "g \<in> set (findall t)" "e = strip g"
      by (auto simp: extract_bibtex_from_response_def)
    from findall_member [OF g(1)] g(2) show ?thesis by blast
  qed
  have few: "extract_bibtex_from_response t = []"
    if "length (filter (\<lambda>c. c = CHR ''\<newline>'') t) < 2"
  proof (rule ccontr)
    assume "extract_bibtex_from_response t \<noteq> []"
    then obtain e where "e \<in> set (extract_bibtex_from_response t)"
      by (cases "extract_bibtex_from_response t") auto
    from shape [OF this] obtain pre tag ws g rest where
      "t = pre @ ''```'' @ tag @ ws @ ''\<newline>'' @ g @ ''\<newline>```'' @ rest" by blast
    with block_two_newlines [of pre tag ws g rest] that show False by simp
  qed
  have one: "extract_bibtex_from_response ''```bibtex @x```'' = []" by code_simp
  have two: "extract_bibtex_from_response ''```\<newline>```'' = []" by code_simp
  from shape few one two show ?thesis by blast
qed

theorem extract_block_shape_witness:
  "extract_bibtex_from_response ''Look:\<newline>```bibtex @y```'' = []"
proof -
  have "length (filter (\<lambda>c. c = CHR ''\<newline>'') ''Look:\<newline>```bibtex @y```'') < 2" by simp
  with extract_block_shape [of "''Look:\<newline>```bibtex @y```''"] show ?thesis by blast
qed

section \<open>Export\<close>

lemma all_results_none: "\<forall>v \<in> set vs. results v = None \<Longrightarrow> all_results vs = []"
  by (induction vs) (auto simp: all_results_def)

lemma two_vibes_session:
  "vibes (load_state two_vibes) =
     [\<lparr>description = ''graph neural networks'', results = None, raw_results = None\<rparr>,
      \<lparr>description = ''attention mechanisms'', results = None, raw_results = None\<rparr>]"
  by (simp add: two_vibes_def no_files_def add_def load_state_def save_state_def Let_def)

text \<open>
  C6: when no vibe of the session has results, \<^verbatim>\<open>export\<close> prints the warning that
  there are no results to export and returns with every file as it was: the output file
  is neither created nor written, and the session is unchanged.
\<close>

theorem export_nothing:
  assumes "\<forall>v \<in> set (vibes (load_state fs)). results v = None"
  shows "export absolute bib fs = (fs, [NoResultsToExport])"
  using all_results_none [OF assms] by (simp add: export_def Let_def)

theorem export_nothing_witness:
  "export id None two_vibes = (two_vibes, [NoResultsToExport])"
proof -
  have "\<forall>v \<in> set (vibes (load_state two_vibes)). results v = None"
    by (simp add: two_vibes_session)
  from export_nothing [OF this, of id None] show ?thesis .
qed





section \<open>The external call\<close>




section \<open>The search-tool enabling step\<close>

lemma map_of_dict_set: "map_of (dict_set items key v) key = Some v"
  by (induction items key v rule: dict_set.induct) auto

lemma add_missing_tools_written:
  assumes "add_missing_tools settings tools hs hf fs = (Inr True, fs', out)"
    and "\<not> (hs \<and> hf)"
  shows "\<exists>xs settings'. tools = JArr xs
           \<and> set_allow settings (JArr (xs @ (if hs then [] else [JStr ''WebSearch''])
                                         @ (if hf then [] else [JStr ''WebFetch'']))) = Inr settings'
           \<and> fs' = write_settings settings' fs"
proof (cases tools)
  case (JArr xs)
  with assms show ?thesis
    by (cases hs; cases hf) (auto simp: add_missing_tools_def split: sum.splits exn.splits)
qed (use assms in \<open>auto simp: add_missing_tools_def split: if_splits\<close>)

text \<open>A run of \<^verbatim>\<open>check_web_search_settings\<close> that has returned \<^verbatim>\<open>True\<close> leaves files
  on which the next run returns \<^verbatim>\<open>True\<close> and changes nothing.\<close>

lemma check_rerun:
  assumes "check_web_search_settings fs = (Inr True, fs', out)"
  shows "check_web_search_settings fs' = (Inr True, fs', [])"
proof (cases "settings_file fs")
  case None
  with assms have "fs' = write_settings default_settings fs"
    by (simp add: check_web_search_settings_def)
  then show ?thesis
    by (simp add: check_web_search_settings_def write_settings_def default_settings_def
        add_missing_tools_def)
next
  case (Some f)
  show ?thesis
  proof (cases f)
    case NotJson
    with Some assms show ?thesis by (simp add: check_web_search_settings_def)
  next
    case (IsJson settings)
    from assms Some IsJson obtain items where items: "settings = JObj items"
      by (cases settings) (auto simp: check_web_search_settings_def)
    define perms where
      "perms = (case map_of items ''permissions'' of Some v \<Rightarrow> v | None \<Rightarrow> JObj [])"
    from assms Some IsJson items obtain pitems where pitems: "perms = JObj pitems"
      by (cases perms) (auto simp: check_web_search_settings_def perms_def)
    define tools where
      "tools = (case map_of pitems ''allow'' of Some v \<Rightarrow> v | None \<Rightarrow> JArr [])"
    from assms Some IsJson items pitems obtain hs hf where
      hs: "py_in ''WebSearch'' tools = Inr hs" and hf: "py_in ''WebFetch'' tools = Inr hf"
      and step: "add_missing_tools settings tools hs hf fs = (Inr True, fs', out)"
      by (auto simp: check_web_search_settings_def perms_def [symmetric] tools_def [symmetric]
          split: sum.splits)
    show ?thesis
    proof (cases "hs \<and> hf")
      case True
      with step have "fs' = fs" by (simp add: add_missing_tools_def)
      with Some IsJson items pitems hs hf True show ?thesis
        by (simp add: check_web_search_settings_def perms_def [symmetric] tools_def [symmetric]
            add_missing_tools_def)
    next
      case False
      with step obtain xs where xs: "tools = JArr xs"
        by (cases tools) (auto simp: add_missing_tools_def split: if_splits)
      define tools2 where
        "tools2 = JArr (xs @ (if hs then [] else [JStr ''WebSearch''])
                           @ (if hf then [] else [JStr ''WebFetch'']))"
      from hs hf xs have both:
        "py_in ''WebSearch'' tools2 = Inr True" "py_in ''WebFetch'' tools2 = Inr True"
        by (auto simp: tools2_def)
      from add_missing_tools_written [OF step False] xs items obtain settings' where
        set: "set_allow (JObj items) tools2 = Inr settings'"
        and fs': "fs' = write_settings settings' fs"
        by (auto simp: tools2_def)
      from set obtain pitems' where
        "settings' =
           JObj (dict_set items ''permissions'' (JObj (dict_set pitems' ''allow'' tools2)))"
        by (auto split: option.splits json.splits)
      with fs' both show ?thesis
        by (simp add: check_web_search_settings_def write_settings_def map_of_dict_set
            add_missing_tools_def)
    qed
  qed
qed

lemma permissions_present:
  assumes "settings_file fs = Some (IsJson (JObj items))"
    and "map_of items ''permissions'' = Some (JObj perms)"
    and "map_of perms ''allow'' = Some (JArr tools)"
    and "JStr ''WebSearch'' \<in> set tools" and "JStr ''WebFetch'' \<in> set tools"
  shows "check_web_search_settings fs = (Inr True, fs, [])"
  using assms by (simp add: check_web_search_settings_def add_missing_tools_def)

text \<open>
  C8: when the permissions file is a JSON object whose \<^verbatim>\<open>permissions\<close> object has an
  \<^verbatim>\<open>allow\<close> list holding both \<^verbatim>\<open>WebSearch\<close> and \<^verbatim>\<open>WebFetch\<close>, the enabling step
  writes nothing, leaves every file as it was and reports success; and the files left by
  any run of the check that has reported success are such that a further run writes
  nothing and reports success again.
\<close>

theorem enabling_idempotent:
  "(settings_file fs = Some (IsJson (JObj items))
      \<and> map_of items ''permissions'' = Some (JObj perms)
      \<and> map_of perms ''allow'' = Some (JArr tools)
      \<and> JStr ''WebSearch'' \<in> set tools \<and> JStr ''WebFetch'' \<in> set tools
    \<longrightarrow> check_web_search_settings fs = (Inr True, fs, [])
      \<and> enable_web_search_with_consent fs = (Inr True, fs, [ToolsEnabled]))
   \<and> (check_web_search_settings fs = (Inr True, fs', out)
    \<longrightarrow> check_web_search_settings fs' = (Inr True, fs', [])
      \<and> enable_web_search_with_consent fs' = (Inr True, fs', [ToolsEnabled]))"
  by (auto simp: enable_web_search_with_consent_def permissions_present check_rerun)

theorem enabling_idempotent_witness:
  "enable_web_search_with_consent enabled = (Inr True, enabled, [ToolsEnabled])
   \<and> check_web_search_settings no_files = (Inr True, enabled, [])
   \<and> check_web_search_settings enabled = (Inr True, enabled, [])"
proof -
  have first: "check_web_search_settings no_files = (Inr True, enabled, [])"
    by (simp add: check_web_search_settings_def no_files_def enabled_def)
  have "settings_file enabled = Some (IsJson (JObj
          [(''permissions'',
            JObj [(''allow'', JArr [JStr ''WebSearch'', JStr ''WebFetch'']),
                  (''deny'', JArr []), (''ask'', JArr [])])]))"
    by (simp add: enabled_def write_settings_def default_settings_def)
  with first enabling_idempotent [of enabled
      "[(''permissions'',
         JObj [(''allow'', JArr [JStr ''WebSearch'', JStr ''WebFetch'']),
               (''deny'', JArr []), (''ask'', JArr [])])]"
      "[(''allow'', JArr [JStr ''WebSearch'', JStr ''WebFetch'']),
        (''deny'', JArr []), (''ask'', JArr [])]"
      "[JStr ''WebSearch'', JStr ''WebFetch'']" enabled "[]"]
    enabling_idempotent [of no_files "[]" "[]" "[]" enabled "[]"]
  show ?thesis by simp
qed

section \<open>Search\<close>

declare search_vibes.simps [simp del]








































section \<open>The session invariant\<close>



end
